theory Spec2Isabelle
  imports Main
begin

section \<open>Python values\<close>

text \<open>
  The parameter blocks of \<^verbatim>\<open>savu/plugins/plugin_tools.py\<close> are YAML documents loaded into
  ordered mappings, so every object the functions below touch is one of: \<^verbatim>\<open>None\<close>, a
  \<^verbatim>\<open>bool\<close>, an \<^verbatim>\<open>int\<close>, a \<^verbatim>\<open>str\<close>, a \<^verbatim>\<open>list\<close> or an
  \<^verbatim>\<open>OrderedDict\<close>. A mapping is an association list in insertion order; \<open>PDict\<close>
  stands for \<^verbatim>\<open>OrderedDict\<close>, which passes both \<^verbatim>\<open>isinstance(_, dict)\<close> and
  \<^verbatim>\<open>isinstance(_, OrderedDict)\<close>. Floats and tuples are outside the embedding.
\<close>

datatype pyval =
    PNone
  | PBool bool
  | PInt int
  | PStr string
  | PList "pyval list"
  | PDict "(pyval \<times> pyval) list"

type_synonym pydict = "(pyval \<times> pyval) list"

text \<open>The exceptions the modelled code can raise. \<open>Exception\<close> and \<open>ValueError\<close> carry
  the message; \<open>KeyError\<close> carries the key; \<open>AttributeError\<close> the attribute's name.\<close>

datatype error =
    KeyError pyval
  | IndexError
  | TypeError
  | AttributeError string
  | ValueError string
  | Exception string
  | RecursionError

subsection \<open>Equality, hashing, truth\<close>

text \<open>Python's \<^verbatim>\<open>==\<close> identifies \<^verbatim>\<open>True\<close> with \<^verbatim>\<open>1\<close> and \<^verbatim>\<open>False\<close> with
  \<^verbatim>\<open>0\<close>, also inside containers; two \<^verbatim>\<open>OrderedDict\<close>s are equal when their items are
  equal in order.\<close>

primrec norm :: "pyval \<Rightarrow> pyval" where
  "norm PNone = PNone"
| "norm (PBool b) = PInt (if b then 1 else 0)"
| "norm (PInt i) = PInt i"
| "norm (PStr s) = PStr s"
| "norm (PList xs) = PList (map norm xs)"
| "norm (PDict kvs) = PDict (map (map_prod norm norm) kvs)"

definition py_eq :: "pyval \<Rightarrow> pyval \<Rightarrow> bool" where
  "py_eq a b = (norm a = norm b)"

text \<open>Lists and mappings are unhashable: using one as a key raises \<^verbatim>\<open>TypeError\<close>.\<close>

fun hashable :: "pyval \<Rightarrow> bool" where
  "hashable (PList _) = False"
| "hashable (PDict _) = False"
| "hashable _ = True"

text \<open>Truth value testing, as \<^verbatim>\<open>if x\<close> and \<^verbatim>\<open>x and y\<close> do it.\<close>

fun truthy :: "pyval \<Rightarrow> bool" where
  "truthy PNone = False"
| "truthy (PBool b) = b"
| "truthy (PInt i) = (i \<noteq> 0)"
| "truthy (PStr s) = (s \<noteq> [])"
| "truthy (PList xs) = (xs \<noteq> [])"
| "truthy (PDict kvs) = (kvs \<noteq> [])"

fun is_dict :: "pyval \<Rightarrow> bool" where
  "is_dict (PDict _) = True"
| "is_dict _ = False"

subsection \<open>Mappings\<close>

text \<open>\<^verbatim>\<open>d.get(k)\<close> on a mapping with hashable \<open>k\<close>: the first item whose key equals \<open>k\<close>.\<close>

fun pd_get :: "pydict \<Rightarrow> pyval \<Rightarrow> pyval option" where
  "pd_get [] k = None"
| "pd_get ((k', v) # d) k = (if py_eq k' k then Some v else pd_get d k)"

text \<open>\<^verbatim>\<open>d[k] = v\<close>: an existing key keeps its position, a new key goes last.\<close>

fun pd_set :: "pydict \<Rightarrow> pyval \<Rightarrow> pyval \<Rightarrow> pydict" where
  "pd_set [] k v = [(k, v)]"
| "pd_set ((k', v') # d) k v = (if py_eq k' k then (k', v) # d else (k', v') # pd_set d k v)"

subsection \<open>Subscription, membership, length\<close>

text \<open>The position a Python index denotes in a sequence of length \<open>len\<close>: an index
  from \<open>-len\<close> up to \<open>-1\<close> counts from the end, and an index outside
  \<open>-len, ..., len - 1\<close> denotes none (\<^verbatim>\<open>IndexError\<close>).\<close>

definition seq_pos :: "nat \<Rightarrow> int \<Rightarrow> nat option" where
  "seq_pos len i =
     (if 0 \<le> i \<and> i < int len then Some (nat i)
      else if i < 0 \<and> - int len \<le> i then Some (nat (int len + i))
      else None)"

definition seq_index :: "'a list \<Rightarrow> int \<Rightarrow> error + 'a" where
  "seq_index xs i =
     (case seq_pos (length xs) i of None \<Rightarrow> Inl IndexError | Some j \<Rightarrow> Inr (xs ! j))"

text \<open>\<^verbatim>\<open>obj[k]\<close>.\<close>

fun py_getitem :: "pyval \<Rightarrow> pyval \<Rightarrow> error + pyval" where
  "py_getitem (PDict d) k =
     (if hashable k then (case pd_get d k of None \<Rightarrow> Inl (KeyError k) | Some v \<Rightarrow> Inr v)
      else Inl TypeError)"
| "py_getitem (PList xs) (PInt i) = seq_index xs i"
| "py_getitem (PList xs) (PBool b) = seq_index xs (if b then 1 else 0)"
| "py_getitem (PStr s) (PInt i) = map_sum id (\<lambda>c. PStr [c]) (seq_index s i)"
| "py_getitem (PStr s) (PBool b) = map_sum id (\<lambda>c. PStr [c]) (seq_index s (if b then 1 else 0))"
| "py_getitem _ _ = Inl TypeError"


text \<open>\<^verbatim>\<open>t in s\<close> for strings: \<open>t\<close> occurs in \<open>s\<close> as a contiguous piece.\<close>

fun starts_with :: "string \<Rightarrow> string \<Rightarrow> bool" where
  "starts_with s [] = True"
| "starts_with [] (c # t) = False"
| "starts_with (a # s) (c # t) = (a = c \<and> starts_with s t)"

fun is_substring :: "string \<Rightarrow> string \<Rightarrow> bool" where
  "is_substring t [] = (t = [])"
| "is_substring t (a # s) = (starts_with (a # s) t \<or> is_substring t s)"

text \<open>\<^verbatim>\<open>x in container\<close>.\<close>

fun py_in :: "pyval \<Rightarrow> pyval \<Rightarrow> error + bool" where
  "py_in x (PList xs) = Inr (list_ex (py_eq x) xs)"
| "py_in x (PDict d) = (if hashable x then Inr (pd_get d x \<noteq> None) else Inl TypeError)"
| "py_in (PStr t) (PStr s) = Inr (is_substring t s)"
| "py_in _ _ = Inl TypeError"

text \<open>\<^verbatim>\<open>len(obj)\<close>.\<close>

fun py_len :: "pyval \<Rightarrow> error + nat" where
  "py_len (PList xs) = Inr (length xs)"
| "py_len (PDict d) = Inr (length d)"
| "py_len (PStr s) = Inr (length s)"
| "py_len _ = Inl TypeError"

text \<open>\<^verbatim>\<open>type(obj).__name__\<close>.\<close>

fun type_name :: "pyval \<Rightarrow> string" where
  "type_name PNone = ''NoneType''"
| "type_name (PBool _) = ''bool''"
| "type_name (PInt _) = ''int''"
| "type_name (PStr _) = ''str''"
| "type_name (PList _) = ''list''"
| "type_name (PDict _) = ''OrderedDict''"

subsection \<open>Conversion to text\<close>

fun str_nat :: "nat \<Rightarrow> string" where
  "str_nat n = (if n < 10 then [''0123456789'' ! n] else str_nat (n div 10) @ [''0123456789'' ! (n mod 10)])"

definition str_int :: "int \<Rightarrow> string" where
  "str_int i = (if i < 0 then CHR ''-'' # str_nat (nat (- i)) else str_nat (nat i))"

fun join :: "string \<Rightarrow> string list \<Rightarrow> string" where
  "join sep [] = []"
| "join sep [x] = x"
| "join sep (x # y # ys) = x @ sep @ join sep (y # ys)"

text \<open>\<^verbatim>\<open>repr\<close> of a string of printable ASCII text: single quotes, unless the text holds
  a single quote and no double quote; the quote in use, the backslash and the usual control
  characters are escaped.\<close>

definition repr_char :: "char \<Rightarrow> char \<Rightarrow> string" where
  "repr_char q c =
     (if c = CHR 0x5C then [CHR 0x5C, CHR 0x5C]
      else if c = q then [CHR 0x5C, q]
      else if c = CHR 0x0A then [CHR 0x5C, CHR ''n'']
      else if c = CHR 0x0D then [CHR 0x5C, CHR ''r'']
      else if c = CHR 0x09 then [CHR 0x5C, CHR ''t'']
      else [c])"

definition repr_str :: "string \<Rightarrow> string" where
  "repr_str s =
     (let q = (if CHR 0x27 \<in> set s \<and> CHR 0x22 \<notin> set s then CHR 0x22 else CHR 0x27)
      in q # concat (map (repr_char q) s) @ [q])"

definition repr_item :: "string \<times> string \<Rightarrow> string" where
  "repr_item kv = ''('' @ fst kv @ '', '' @ snd kv @ '')''"

text \<open>\<^verbatim>\<open>repr(obj)\<close>; an \<^verbatim>\<open>OrderedDict\<close> prints as the list of its items.\<close>

primrec py_repr :: "pyval \<Rightarrow> string" where
  "py_repr PNone = ''None''"
| "py_repr (PBool b) = (if b then ''True'' else ''False'')"
| "py_repr (PInt i) = str_int i"
| "py_repr (PStr s) = repr_str s"
| "py_repr (PList xs) = ''['' @ join '', '' (map py_repr xs) @ '']''"
| "py_repr (PDict kvs) =
     (let items = map (map_prod py_repr py_repr) kvs
      in if items = [] then ''OrderedDict()''
         else ''OrderedDict(['' @ join '', '' (map repr_item items) @ ''])'')"

text \<open>\<^verbatim>\<open>str(obj)\<close>: a string is its own text, everything else prints as its
  \<^verbatim>\<open>repr\<close>.\<close>

fun py_str :: "pyval \<Rightarrow> string" where
  "py_str (PStr s) = s"
| "py_str v = py_repr v"

section \<open>The state of a \<^verbatim>\<open>PluginTools\<close> instance\<close>

text \<open>A parameter definition record is the mapping loaded for one parameter (keys such as
  \<^verbatim>\<open>dtype\<close>, \<^verbatim>\<open>description\<close>, \<^verbatim>\<open>visibility\<close>, \<^verbatim>\<open>default\<close>, \<^verbatim>\<open>dependency\<close>,
  \<^verbatim>\<open>display\<close>). The definition dictionary and the value-set are ordered mappings keyed
  by parameter name: association lists whose keys are distinct.\<close>

type_synonym definitions = "(string \<times> pydict) list"

type_synonym value_set = "(string \<times> pyval) list"

text \<open>The plugin object behind \<^verbatim>\<open>self.plugin_class\<close>: its \<^verbatim>\<open>name\<close> attribute, its
  dictionary of sweep entries keyed by sweep dimension, and its list of extra dimensions.\<close>

record plugin =
  name :: string
  multi_params_dict :: "(nat \<times> pydict) list"
  extra_dims :: "nat list"

text \<open>\<open>param\<close> is the dictionary behind \<^verbatim>\<open>self.param\<close> (what
  \<^verbatim>\<open>get_param_definitions()\<close> and \<^verbatim>\<open>self.param.get_dictionary()\<close> return),
  \<open>parameters\<close> is \<^verbatim>\<open>self.parameters\<close>, and \<open>console\<close> holds the lines printed so
  far.\<close>

record tools =
  param :: definitions
  parameters :: value_set
  plugin_class :: plugin
  console :: "string list"

text \<open>\<^verbatim>\<open>d[k] = v\<close> on a mapping keyed by name or by dimension.\<close>

fun od_set :: "('k \<times> 'a) list \<Rightarrow> 'k \<Rightarrow> 'a \<Rightarrow> ('k \<times> 'a) list" where
  "od_set [] k v = [(k, v)]"
| "od_set ((k', v') # d) k v = (if k' = k then (k', v) # d else (k', v') # od_set d k v)"

text \<open>Looking a Python object up as a key of a name-keyed mapping: only a string can be
  found.\<close>

fun od_find :: "(string \<times> 'a) list \<Rightarrow> pyval \<Rightarrow> 'a option" where
  "od_find d (PStr s) = map_of d s"
| "od_find d _ = None"

text \<open>\<^verbatim>\<open>param_info_dict[p_name][key] = v\<close>: the record stored under \<open>p_name\<close> is changed
  in place.\<close>

definition set_field :: "definitions \<Rightarrow> string \<Rightarrow> string \<Rightarrow> pyval \<Rightarrow> definitions" where
  "set_field defs p_name key v =
     map (\<lambda>(n, r). if n = p_name then (n, pd_set r (PStr key) v) else (n, r)) defs"

text \<open>Modelled from the spec: the sweep registration callbacks of the plugin object
  (\<^verbatim>\<open>get_multi_params_dict\<close>, \<^verbatim>\<open>alter_multi_params_dict\<close>, \<^verbatim>\<open>append_extra_dims\<close>) are
  not in the source files. The spec has them register a sweep entry at a sweep-dimension
  index and record the number of additional execution instances.\<close>

definition get_multi_params_dict :: "plugin \<Rightarrow> (nat \<times> pydict) list" where
  "get_multi_params_dict p = multi_params_dict p"

definition alter_multi_params_dict :: "nat \<Rightarrow> pydict \<Rightarrow> plugin \<Rightarrow> plugin" where
  "alter_multi_params_dict k entry p = p\<lparr>multi_params_dict := od_set (multi_params_dict p) k entry\<rparr>"

definition append_extra_dims :: "nat \<Rightarrow> plugin \<Rightarrow> plugin" where
  "append_extra_dims n p = p\<lparr>extra_dims := extra_dims p @ [n]\<rparr>"

section \<open>Validation of a class's parameter block\<close>

subsection \<open>\<^verbatim>\<open>_check_required_keys\<close>\<close>

text \<open>The loop over the block. Its state is the three local variables
  \<^verbatim>\<open>required_keys\<close>, \<^verbatim>\<open>missing_keys\<close> and \<^verbatim>\<open>missing_key_dict\<close>; the set
  \<^verbatim>\<open>set(required_keys) - set(all_keys)\<close> is kept as the list of its elements.\<close>

fun required_keys_loop ::
  "definitions \<Rightarrow> string list \<times> bool \<times> (string \<times> string list) list
     \<Rightarrow> string list \<times> bool \<times> (string \<times> string list) list" where
  "required_keys_loop [] s = s"
| "required_keys_loop ((p_key, p) # rest) (required_keys, missing_keys, missing_key_dict) =
     (let required_keys' =
            (if (case pd_get p (PStr ''visibility'') of
                   Some v \<Rightarrow> py_eq v (PStr ''hidden'') | None \<Rightarrow> False)
             then [''default''] else required_keys)
      in if \<not> list_all (\<lambda>d. pd_get p (PStr d) \<noteq> None) required_keys'
         then required_keys_loop rest
                (required_keys', True,
                 od_set missing_key_dict p_key
                   (filter (\<lambda>d. pd_get p (PStr d) = None) required_keys'))
         else required_keys_loop rest (required_keys', missing_keys, missing_key_dict))"

text \<open>The result pairs what is printed (for each offending parameter, its missing keys)
  with the outcome: the exception raised, or a normal return.\<close>

definition check_required_keys ::
  "definitions \<Rightarrow> string \<Rightarrow> (string \<times> string list) list \<times> (error + unit)" where
  "check_required_keys param_info_dict tool_class =
     (case required_keys_loop param_info_dict
             ([''dtype'', ''description'', ''visibility'', ''default''], False, []) of
        (_, missing_keys, missing_key_dict) \<Rightarrow>
          if missing_keys
          then (missing_key_dict, Inl (Exception (''Please edit '' @ tool_class)))
          else ([], Inr ()))"

subsection \<open>\<^verbatim>\<open>_check_dtype\<close>\<close>

text \<open>The type registry \<^verbatim>\<open>param_u.type_dict\<close> is not in the source files; the check
  takes the list of its keys as the argument \<open>type_dict\<close>.\<close>

definition in_type_dict :: "string list \<Rightarrow> pyval \<Rightarrow> bool" where
  "in_type_dict type_dict x = list_ex (\<lambda>k. py_eq x (PStr k)) type_dict"

text \<open>The inner loop over a list-valued dtype: an unknown item is printed, and nothing
  else happens.\<close>

fun check_dtype_items ::
  "string list \<Rightarrow> string \<Rightarrow> pyval list \<Rightarrow> (string \<times> pyval) list \<times> (error + unit)" where
  "check_dtype_items type_dict p_key [] = ([], Inr ())"
| "check_dtype_items type_dict p_key (item # items) =
     (if \<not> hashable item then ([], Inl TypeError)
      else (case check_dtype_items type_dict p_key items of
              (out, r) \<Rightarrow>
                ((if in_type_dict type_dict item then [] else [(p_key, item)]) @ out, r)))"

text \<open>The outer loop, carrying the local variable \<^verbatim>\<open>dtype_valid\<close>. The first component
  of the result lists the invalid types printed, each with its parameter.\<close>

fun check_dtype_loop ::
  "string list \<Rightarrow> definitions \<Rightarrow> bool \<Rightarrow> (string \<times> pyval) list \<times> (error + bool)" where
  "check_dtype_loop type_dict [] dtype_valid = ([], Inr dtype_valid)"
| "check_dtype_loop type_dict ((p_key, p) # rest) dtype_valid =
     (case pd_get p (PStr ''dtype'') of
        None \<Rightarrow> ([], Inl (KeyError (PStr ''dtype'')))
      | Some dtype \<Rightarrow>
          (case dtype of
             PList items \<Rightarrow>
               (case check_dtype_items type_dict p_key items of
                  (out, Inl e) \<Rightarrow> (out, Inl e)
                | (out, Inr _) \<Rightarrow>
                    (case check_dtype_loop type_dict rest dtype_valid of
                       (out', r) \<Rightarrow> (out @ out', r)))
           | _ \<Rightarrow>
               if \<not> hashable dtype then ([], Inl TypeError)
               else if \<not> in_type_dict type_dict dtype
               then (case check_dtype_loop type_dict rest False of
                       (out', r) \<Rightarrow> ((p_key, dtype) # out', r))
               else check_dtype_loop type_dict rest dtype_valid))"

definition check_dtype ::
  "string list \<Rightarrow> definitions \<Rightarrow> string \<Rightarrow> (string \<times> pyval) list \<times> (error + unit)" where
  "check_dtype type_dict param_info_dict tool_class =
     (case check_dtype_loop type_dict param_info_dict True of
        (out, Inl e) \<Rightarrow> (out, Inl e)
      | (out, Inr dtype_valid) \<Rightarrow>
          if \<not> dtype_valid then (out, Inl (Exception (''Please edit '' @ tool_class)))
          else (out, Inr ()))"

section \<open>Dependent display: \<^verbatim>\<open>_set_display\<close> and \<^verbatim>\<open>check_dependencies\<close>\<close>

text \<open>\<^verbatim>\<open>_set_display\<close>: every parameter of a freshly loaded block is displayed.\<close>

definition set_display :: "definitions \<Rightarrow> definitions" where
  "set_display param_info_dict =
     map (\<lambda>(k, v). (k, pd_set v (PStr ''display'') (PStr ''on''))) param_info_dict"

text \<open>The dictionary comprehension \<^verbatim>\<open>dep_list\<close>: the parameters that carry a
  \<^verbatim>\<open>dependency\<close>, each with it.\<close>

definition dep_list :: "definitions \<Rightarrow> (string \<times> pyval) list" where
  "dep_list param_info_dict =
     List.map_filter (\<lambda>(k, v). map_option (Pair k) (pd_get v (PStr ''dependency'')))
       param_info_dict"

text \<open>The body of the loop over \<^verbatim>\<open>dep_list\<close>, for one dependency: the exception it
  raises, or the value it assigns to the display flag, if any. A dependency that is a
  mapping names its parent by its first key; any other dependency is itself looked up in
  \<^verbatim>\<open>parameters\<close>. A parent that is not in \<^verbatim>\<open>parameters\<close> leaves the display flag as it
  is.\<close>

definition dependency_display :: "value_set \<Rightarrow> pyval \<Rightarrow> error + string option" where
  "dependency_display ps dependency =
     (case dependency of
        PDict dep \<Rightarrow>
          (case dep of
             [] \<Rightarrow> Inl IndexError
           | (parent_param_name, parent_choice_list) # _ \<Rightarrow>
               (case od_find ps parent_param_name of
                  None \<Rightarrow> Inr None
                | Some parent_value \<Rightarrow>
                    (case py_in (PStr (py_str parent_value)) parent_choice_list of
                       Inl e \<Rightarrow> Inl e
                     | Inr b \<Rightarrow> Inr (Some (if b then ''on'' else ''off'')))))
      | _ \<Rightarrow>
          if \<not> hashable dependency then Inl TypeError
          else (case od_find ps dependency of
                  None \<Rightarrow> Inr None
                | Some parent_value \<Rightarrow>
                    Inr (Some (if parent_value = PNone \<or> py_str parent_value = ''None''
                               then ''off'' else ''on''))))"

text \<open>The loop: each assignment goes to \<^verbatim>\<open>param_info_dict[p_name]["display"]\<close>; an
  exception ends the loop with the flags assigned so far.\<close>

fun dependencies_loop ::
  "value_set \<Rightarrow> (string \<times> pyval) list \<Rightarrow> definitions \<Rightarrow> (error + unit) \<times> definitions" where
  "dependencies_loop ps [] defs = (Inr (), defs)"
| "dependencies_loop ps ((p_name, dependency) # rest) defs =
     (case dependency_display ps dependency of
        Inl e \<Rightarrow> (Inl e, defs)
      | Inr None \<Rightarrow> dependencies_loop ps rest defs
      | Inr (Some flag) \<Rightarrow>
          dependencies_loop ps rest (set_field defs p_name ''display'' (PStr flag)))"

text \<open>What an outcome of the loop body does to the record of the dependent.\<close>

definition flagged :: "error + string option \<Rightarrow> pydict \<Rightarrow> pydict" where
  "flagged x r = (case x of Inr (Some flag) \<Rightarrow> pd_set r (PStr ''display'') (PStr flag) | _ \<Rightarrow> r)"

definition check_dependencies :: "value_set \<Rightarrow> tools \<Rightarrow> (error + unit) \<times> tools" where
  "check_dependencies ps st =
     (case dependencies_loop ps (dep_list (param st)) (param st) of
        (r, defs) \<Rightarrow> (r, st\<lparr>param := defs\<rparr>))"

section \<open>Process-list overrides\<close>

text \<open>\<^verbatim>\<open>param_u.is_multi_param\<close> and \<^verbatim>\<open>pu.convert_multi_params\<close> are not in the source
  files; the two functions below take them as the arguments \<open>is_multi_param\<close> and
  \<open>convert_multi_params\<close>, the latter returning the pair of the converted value and the
  error string.\<close>

definition check_multi_params ::
  "(string \<Rightarrow> pyval \<Rightarrow> bool) \<Rightarrow> (string \<Rightarrow> pyval \<Rightarrow> pyval \<times> string)
     \<Rightarrow> pyval \<Rightarrow> string \<Rightarrow> tools \<Rightarrow> (error + unit) \<times> tools" where
  "check_multi_params is_multi_param convert_multi_params v key st =
     (if is_multi_param key v then
        (case convert_multi_params key v of
           (v', error_str) \<Rightarrow>
             if error_str = [] then
               (let st1 = st\<lparr>parameters := od_set (parameters st) key v'\<rparr>
                in case py_getitem v' (PInt 0) of
                     Inl e \<Rightarrow> (Inl e, st1)
                   | Inr first \<Rightarrow>
                       (let label = key @ ''_params.'' @ type_name first;
                            plugin = plugin_class st1;
                            plugin1 =
                              alter_multi_params_dict (length (get_multi_params_dict plugin))
                                [(PStr ''label'', PStr label), (PStr ''values'', v')] plugin
                        in case py_len v' of
                             Inl e \<Rightarrow> (Inl e, st1\<lparr>plugin_class := plugin1\<rparr>)
                           | Inr n \<Rightarrow>
                               (Inr (), st1\<lparr>plugin_class := append_extra_dims n plugin1\<rparr>)))
             else (Inr (), st))
      else (Inr (), st\<lparr>parameters := od_set (parameters st) key v\<rparr>))"

text \<open>The message of the \<^verbatim>\<open>ValueError\<close> for a key that is no parameter of the plugin.\<close>

definition not_valid_message :: "string \<Rightarrow> string \<Rightarrow> string" where
  "not_valid_message key plugin_name =
     ''Parameter '' @ [CHR 0x27] @ key @ [CHR 0x27] @ '' is not valid for plugin ''
       @ plugin_name @ ''. '' @ [CHR 0x0A]
       @ ''Try opening and re-saving the process list in the configurator to auto remove ''
       @ [CHR 0x0A] @ ''obsolete parameters.''"

text \<open>\<^verbatim>\<open>set_plugin_list_parameters\<close>: the loop over the keys of the override mapping, in
  its order.\<close>

fun set_plugin_list_parameters ::
  "(string \<Rightarrow> pyval \<Rightarrow> bool) \<Rightarrow> (string \<Rightarrow> pyval \<Rightarrow> pyval \<times> string)
     \<Rightarrow> (string \<times> pyval) list \<Rightarrow> tools \<Rightarrow> (error + unit) \<times> tools" where
  "set_plugin_list_parameters is_multi_param convert_multi_params [] st = (Inr (), st)"
| "set_plugin_list_parameters is_multi_param convert_multi_params ((key, new_value) # rest) st =
     (if key \<in> set (map fst (parameters st)) then
        (case check_multi_params is_multi_param convert_multi_params new_value key st of
           (Inl e, st') \<Rightarrow> (Inl e, st')
         | (Inr _, st') \<Rightarrow>
             set_plugin_list_parameters is_multi_param convert_multi_params rest st')
      else (Inl (ValueError (not_valid_message key (name (plugin_class st)))), st))"

section \<open>Default resolution\<close>

text \<open>\<^verbatim>\<open>does_exist\<close>.\<close>

definition does_exist :: "pyval \<Rightarrow> definitions \<Rightarrow> error + pydict" where
  "does_exist key ddict =
     (case od_find ddict key of
        None \<Rightarrow> Inl (Exception (''The dependency '' @ py_str key @ '' does not exist''))
      | Some r \<Rightarrow> Inr r)"

text \<open>\<^verbatim>\<open>get_dependent_default\<close>. The first argument bounds the depth of the recursion, as
  the interpreter's recursion limit does: at depth zero the call raises
  \<^verbatim>\<open>RecursionError\<close>. The recursive call is made on \<^verbatim>\<open>parent['default']\<close>, the
  parent's default descriptor, as the source has it. The value-set is threaded through,
  since the call assigns \<^verbatim>\<open>self.parameters[parent_name]\<close>.\<close>

fun get_dependent_default ::
  "nat \<Rightarrow> definitions \<Rightarrow> pydict \<Rightarrow> value_set \<Rightarrow> (error + pyval) \<times> value_set" where
  "get_dependent_default 0 pdefs child ps = (Inl RecursionError, ps)"
| "get_dependent_default (Suc depth) pdefs child ps =
     (case pd_get child (PStr ''default'') of
        None \<Rightarrow> (Inl (KeyError (PStr ''default'')), ps)
      | Some (PDict d) \<Rightarrow>
          (case d of
             [] \<Rightarrow> (Inl IndexError, ps)
           | (parent_name, branches) # _ \<Rightarrow>
               (case does_exist parent_name pdefs of
                  Inl e \<Rightarrow> (Inl e, ps)
                | Inr parent \<Rightarrow>
                    (case pd_get parent (PStr ''default'') of
                       None \<Rightarrow> (Inl (KeyError (PStr ''default'')), ps)
                     | Some parent_default \<Rightarrow>
                         (case (case parent_default of
                                  PDict pd \<Rightarrow>
                                    (case get_dependent_default depth pdefs pd ps of
                                       (Inl e, ps') \<Rightarrow> (Inl e, ps')
                                     | (Inr v, ps') \<Rightarrow>
                                         (Inr (), od_set ps' (py_str parent_name) v))
                                | _ \<Rightarrow> (Inr (), ps)) of
                            (Inl e, ps') \<Rightarrow> (Inl e, ps')
                          | (Inr _, ps') \<Rightarrow>
                              (case od_find ps' parent_name of
                                 None \<Rightarrow> (Inl (KeyError parent_name), ps')
                               | Some parent_value \<Rightarrow>
                                   (py_getitem branches parent_value, ps'))))))
      | Some _ \<Rightarrow> (Inl (AttributeError ''keys''), ps))"

text \<open>\<^verbatim>\<open>update_dependent_defaults\<close>: the loop over the definitions.\<close>

fun update_loop ::
  "nat \<Rightarrow> definitions \<Rightarrow> definitions \<Rightarrow> value_set \<Rightarrow> (error + unit) \<times> value_set" where
  "update_loop depth pdefs [] ps = (Inr (), ps)"
| "update_loop depth pdefs ((nm, pdict) # rest) ps =
     (case pd_get pdict (PStr ''default'') of
        None \<Rightarrow> (Inl (KeyError (PStr ''default'')), ps)
      | Some dflt \<Rightarrow>
          if truthy dflt \<and> is_dict dflt then
            (case get_dependent_default depth pdefs pdict ps of
               (Inl e, ps') \<Rightarrow> (Inl e, ps')
             | (Inr v, ps') \<Rightarrow> update_loop depth pdefs rest (od_set ps' nm v))
          else update_loop depth pdefs rest ps)"

definition update_dependent_defaults :: "nat \<Rightarrow> tools \<Rightarrow> (error + unit) \<times> tools" where
  "update_dependent_defaults depth st =
     (case update_loop depth (param st) (param st) (parameters st) of
        (r, ps) \<Rightarrow> (r, st\<lparr>parameters := ps\<rparr>))"

text \<open>The list of pairs \<^verbatim>\<open>[(k, v['default']) for k, v in p_defs.items()]\<close>; a record
  without a default raises \<^verbatim>\<open>KeyError\<close>.\<close>

fun default_items :: "definitions \<Rightarrow> error + value_set" where
  "default_items [] = Inr []"
| "default_items ((k, v) # rest) =
     (case pd_get v (PStr ''default'') of
        None \<Rightarrow> Inl (KeyError (PStr ''default''))
      | Some d \<Rightarrow> (case default_items rest of Inl e \<Rightarrow> Inl e | Inr ps \<Rightarrow> Inr ((k, d) # ps)))"

text \<open>\<^verbatim>\<open>_populate_default_parameters\<close>. The docstring bookkeeping of
  \<^verbatim>\<open>set_docstring\<close> and the final hand-over of the value-set to the plugin object
  (\<^verbatim>\<open>set_parameters\<close>) touch nothing of the state modelled here.\<close>

definition populate_default_parameters :: "nat \<Rightarrow> tools \<Rightarrow> (error + unit) \<times> tools" where
  "populate_default_parameters depth st =
     (case default_items (param st) of
        Inl e \<Rightarrow> (Inl e, st)
      | Inr ps \<Rightarrow>
          (case update_dependent_defaults depth (st\<lparr>parameters := ps\<rparr>) of
             (Inl e, st') \<Rightarrow> (Inl e, st')
           | (Inr _, st') \<Rightarrow> check_dependencies (parameters st') st'))"

text \<open>\<^verbatim>\<open>check_for_default\<close>. The class \<^verbatim>\<open>PluginParameters\<close> and the classes it is mixed
  with define no attribute \<^verbatim>\<open>_set_default\<close>, so the call \<^verbatim>\<open>self._set_default(...)\<close>
  raises \<^verbatim>\<open>AttributeError\<close> once the default has been read.\<close>

definition check_for_default :: "pyval \<Rightarrow> string \<Rightarrow> value_set \<Rightarrow> tools \<Rightarrow> error + pyval" where
  "check_for_default v param_name ps st =
     (if py_str v = ''default'' then
        (case map_of (param st) param_name of
           None \<Rightarrow> Inl (KeyError (PStr param_name))
         | Some r \<Rightarrow>
             (case pd_get r (PStr ''default'') of
                None \<Rightarrow> Inl (KeyError (PStr ''default''))
              | Some dflt \<Rightarrow> Inl (AttributeError ''_set_default'')))
      else Inr v)"

section \<open>Recommendations: \<^verbatim>\<open>warn_dependents\<close> and \<^verbatim>\<open>make_recommendation\<close>\<close>




section \<open>Notions used in the properties\<close>

text \<open>Two definition dictionaries have the same rules when they declare the same
  parameters in the same order, with the same defaults and the same dependencies.\<close>

definition same_rules :: "definitions \<Rightarrow> definitions \<Rightarrow> bool" where
  "same_rules d d' =
     list_all2 (\<lambda>a b. fst a = fst b
                  \<and> pd_get (snd a) (PStr ''default'') = pd_get (snd b) (PStr ''default'')
                  \<and> pd_get (snd a) (PStr ''dependency'') = pd_get (snd b) (PStr ''dependency''))
       d d'"

text \<open>No default that is a dependency descriptor has, among its keys, the key
  \<^verbatim>\<open>default\<close>.\<close>

definition plain_descriptors :: "definitions \<Rightarrow> bool" where
  "plain_descriptors pdefs =
     list_all (\<lambda>a. case pd_get (snd a) (PStr ''default'') of
                      Some (PDict d) \<Rightarrow> pd_get d (PStr ''default'') = None
                    | _ \<Rightarrow> True) pdefs"


section \<open>Example inputs\<close>

text \<open>The chain of the specification's example: \<open>C\<close> has the literal default \<open>2\<close>, the
  default of \<open>B\<close> is \<^verbatim>\<open>{C: {2: "x"}}\<close> and the default of \<open>A\<close> is
  \<^verbatim>\<open>{B: {"x": 42}}\<close>.\<close>

definition chain_defs :: definitions where
  "chain_defs =
     [(''C'', [(PStr ''default'', PInt 2)]),
      (''B'', [(PStr ''default'', PDict [(PStr ''C'', PDict [(PInt 2, PStr ''x'')])])]),
      (''A'', [(PStr ''default'', PDict [(PStr ''B'', PDict [(PStr ''x'', PInt 42)])])])]"

text \<open>A plugin named \<open>P\<close> with no sweep registered, and the state of a tools object that
  has loaded the definitions \<open>defs\<close> and holds the values \<open>ps\<close>.\<close>

definition plugin_P :: plugin where
  "plugin_P = \<lparr>name = ''P'', multi_params_dict = [], extra_dims = []\<rparr>"

definition loaded :: "definitions \<Rightarrow> value_set \<Rightarrow> tools" where
  "loaded defs ps = \<lparr>param = defs, parameters = ps, plugin_class = plugin_P, console = []\<rparr>"

text \<open>Stand-ins for the two functions that are not in the source files, used where a
  concrete override is run: a classifier that takes every value for multi-value syntax and
  one that takes none, a conversion that succeeds with the sequence \<open>1, 2, 3\<close> and one
  that fails with an error string.\<close>

definition all_multi :: "string \<Rightarrow> pyval \<Rightarrow> bool" where
  "all_multi key v = True"

definition none_multi :: "string \<Rightarrow> pyval \<Rightarrow> bool" where
  "none_multi key v = False"

definition convert_to_123 :: "string \<Rightarrow> pyval \<Rightarrow> pyval \<times> string" where
  "convert_to_123 key v = (PList [PInt 1, PInt 2, PInt 3], [])"

definition convert_fails :: "string \<Rightarrow> pyval \<Rightarrow> pyval \<times> string" where
  "convert_fails key v = (v, ''No values for tuned parameter'')"

text \<open>The specification's example of a dependent display: a parameter \<open>mode\<close> and a
  parameter \<open>threshold\<close> with the dependency \<open>dep\<close>, as loaded (every display flag on).\<close>

definition mode_defs :: "pyval \<Rightarrow> definitions" where
  "mode_defs dep =
     set_display
       [(''mode'', [(PStr ''default'', PStr ''auto'')]),
        (''threshold'', [(PStr ''default'', PInt 1), (PStr ''dependency'', dep)])]"


section \<open>Properties\<close>


lemma py_eq_PStr_right: "py_eq k (PStr s) = (k = PStr s)"
  by (cases k) (auto simp: py_eq_def)

lemma py_eq_PStr_left: "py_eq (PStr s) k = (k = PStr s)"
  by (cases k) (auto simp: py_eq_def)


lemma od_set_keys: "k \<in> set (map fst d) \<Longrightarrow> map fst (od_set d k v) = map fst d"
  by (induction d) force+

lemma od_set_fresh: "k \<notin> set (map fst d) \<Longrightarrow> od_set d k v = d @ [(k, v)]"
  by (induction d) auto

lemma map_of_od_set: "map_of (od_set d k v) = (map_of d)(k \<mapsto> v)"
  by (induction d) auto

subsection \<open>Required keys\<close>

text \<open>
  Claim C2 (every non-hidden parameter lacking one of dtype, description, visibility,
  default makes validation fail, wherever the hidden parameters of the block stand).
  The code does not do this: once the loop has met a hidden parameter, the local
  \<^verbatim>\<open>required_keys\<close> stays \<^verbatim>\<open>["default"]\<close> for every later parameter. A block
  whose hidden parameter comes first passes although the basic parameter \<open>p\<close> after it has
  neither dtype nor description; the same two parameters in the other order fail, and the
  failure lists exactly the two missing keys of \<open>p\<close>.
\<close>

theorem check_required_keys_after_hidden:
  "check_required_keys
     [(''h'', [(PStr ''visibility'', PStr ''hidden''), (PStr ''default'', PInt 1)]),
      (''p'', [(PStr ''visibility'', PStr ''basic''), (PStr ''default'', PInt 2)])] ''T''
     = ([], Inr ())
   \<and> check_required_keys
     [(''p'', [(PStr ''visibility'', PStr ''basic''), (PStr ''default'', PInt 2)]),
      (''h'', [(PStr ''visibility'', PStr ''hidden''), (PStr ''default'', PInt 1)])] ''T''
     = ([(''p'', [''dtype'', ''description''])], Inl (Exception ''Please edit T''))"
  by (simp add: check_required_keys_def py_eq_def)

subsection \<open>Declared types\<close>

text \<open>
  Claim C7 (an unknown token inside a list-valued dtype makes validation fatal). The code
  does not do this: the branch for a list prints the unknown item and leaves
  \<^verbatim>\<open>dtype_valid\<close> alone, so with the registry \<open>int, str\<close> the dtype list
  \<open>[int, bogus]\<close> is reported and passes, while the same unknown token as a plain dtype
  is fatal.
\<close>

theorem check_dtype_list_not_fatal:
  "check_dtype [''int'', ''str'']
     [(''p'', [(PStr ''dtype'', PList [PStr ''int'', PStr ''bogus''])])] ''T''
     = ([(''p'', PStr ''bogus'')], Inr ())
   \<and> check_dtype [''int'', ''str''] [(''p'', [(PStr ''dtype'', PStr ''bogus'')])] ''T''
     = ([(''p'', PStr ''bogus'')], Inl (Exception ''Please edit T''))"
  by (simp add: check_dtype_def py_eq_def in_type_dict_def)

subsection \<open>Default resolution along a chain\<close>

text \<open>
  Claim C1 (resolving the default of \<open>A\<close> along the chain \<open>A\<close>, \<open>B\<close>, \<open>C\<close> returns the
  leaf value, 42 in the example). The code does not do this: the recursive call of
  \<^verbatim>\<open>get_dependent_default\<close> is given \<^verbatim>\<open>parent['default']\<close>, the descriptor, where the
  function expects the parent's definition record, and the descriptor
  \<^verbatim>\<open>{C: {2: "x"}}\<close> has no key \<^verbatim>\<open>default\<close>. With any recursion limit of two or more
  the pass over the example raises \<^verbatim>\<open>KeyError('default')\<close>, in either declaration
  order, and so does the direct call on the record of \<open>A\<close> once \<open>B\<close> holds its own
  resolved value.
\<close>

theorem chain_default_raises:
  "fst (populate_default_parameters (Suc (Suc depth)) (loaded chain_defs []))
     = Inl (KeyError (PStr ''default''))
   \<and> fst (populate_default_parameters (Suc (Suc depth)) (loaded (rev chain_defs) []))
     = Inl (KeyError (PStr ''default''))
   \<and> fst (get_dependent_default (Suc (Suc depth)) chain_defs
        [(PStr ''default'', PDict [(PStr ''B'', PDict [(PStr ''x'', PInt 42)])])]
        [(''C'', PInt 2), (''B'', PStr ''x'')])
     = Inl (KeyError (PStr ''default''))"
  by (simp add: populate_default_parameters_def update_dependent_defaults_def loaded_def
      chain_defs_def does_exist_def py_eq_def)

subsection \<open>Restoring a default\<close>

text \<open>
  Claim C10 (\<^verbatim>\<open>check_for_default\<close> with the value \<^verbatim>\<open>"default"\<close> returns the declared
  default, resolved if it is a descriptor). The code does not do this: it reads the
  declared default and then calls \<^verbatim>\<open>self._set_default\<close>, an attribute that no class
  of the file defines, so the call raises \<^verbatim>\<open>AttributeError\<close> for the literal default of
  \<open>C\<close> and for the descriptor default of \<open>A\<close> alike.
\<close>

theorem check_for_default_raises:
  "check_for_default (PStr ''default'') ''C'' [(''C'', PInt 7)]
       (loaded chain_defs [(''C'', PInt 7)])
     = Inl (AttributeError ''_set_default'')
   \<and> check_for_default (PStr ''default'') ''A''
       [(''C'', PInt 2), (''B'', PStr ''x''), (''A'', PInt 0)]
       (loaded chain_defs [(''C'', PInt 2), (''B'', PStr ''x''), (''A'', PInt 0)])
     = Inl (AttributeError ''_set_default'')"
  by (simp add: check_for_default_def loaded_def chain_defs_def py_eq_def)

subsection \<open>Overrides from the process list\<close>

text \<open>An override of a known key changes neither the keys of the value-set, nor the
  plugin's name, nor the definitions, nor what has been printed.\<close>

lemma check_multi_params_keeps:
  assumes "key \<in> set (map fst (parameters st))"
    and "check_multi_params im cv v key st = (r, st')"
  shows "map fst (parameters st') = map fst (parameters st)
         \<and> name (plugin_class st') = name (plugin_class st)
         \<and> param st' = param st \<and> console st' = console st"
proof -
  from assms(1) have k: "map fst (od_set (parameters st) key w) = map fst (parameters st)" for w
    by (rule od_set_keys)
  from assms(2) show ?thesis
    by (auto simp: check_multi_params_def Let_def k alter_multi_params_dict_def
        append_extra_dims_def split: if_splits prod.splits sum.splits)
qed

lemma set_plugin_list_parameters_keeps:
  "set_plugin_list_parameters im cv input st = (r, st') \<Longrightarrow>
     map fst (parameters st') = map fst (parameters st)
     \<and> name (plugin_class st') = name (plugin_class st)
     \<and> param st' = param st \<and> console st' = console st"
proof (induction input arbitrary: st)
  case Nil
  then show ?case by simp
next
  case (Cons kv rest)
  obtain key v where kv: "kv = (key, v)" by (cases kv)
  show ?case
  proof (cases "key \<in> set (map fst (parameters st))")
    case False
    with Cons.prems kv show ?thesis by simp
  next
    case True
    obtain r1 st1 where c: "check_multi_params im cv v key st = (r1, st1)"
      by (cases "check_multi_params im cv v key st")
    note k = check_multi_params_keeps[OF True c]
    show ?thesis
    proof (cases r1)
      case (Inl e)
      with Cons.prems kv True c k show ?thesis by simp
    next
      case (Inr u)
      with Cons.prems kv True c have "set_plugin_list_parameters im cv rest st1 = (r, st')"
        by simp
      from Cons.IH[OF this] k show ?thesis by simp
    qed
  qed
qed

text \<open>The loop over a mapping that is cut in two runs the first part and, if that raised
  nothing, the second part from the state the first part left.\<close>

lemma set_plugin_list_parameters_append:
  "set_plugin_list_parameters im cv (pre @ rest) st =
     (case set_plugin_list_parameters im cv pre st of
        (Inl e, st') \<Rightarrow> (Inl e, st')
      | (Inr u, st') \<Rightarrow> set_plugin_list_parameters im cv rest st')"
proof (induction pre arbitrary: st)
  case Nil
  show ?case by simp
next
  case (Cons kv pre)
  obtain key v where kv: "kv = (key, v)" by (cases kv)
  show ?case
  proof (cases "key \<in> set (map fst (parameters st))")
    case False
    with kv show ?thesis by simp
  next
    case True
    obtain r1 st1 where c: "check_multi_params im cv v key st = (r1, st1)"
      by (cases "check_multi_params im cv v key st")
    show ?thesis
      using kv True c Cons.IH[of st1] by (cases r1) simp_all
  qed
qed

text \<open>
  Claim C4: when the override \<open>v\<close> for \<open>key\<close> has the multi-value syntax and its
  conversion succeeds (empty error string) with a sequence of at least one element,
  \<^verbatim>\<open>__check_multi_params\<close> returns normally; the sequence is stored as the value of
  \<open>key\<close>; one sweep entry, with the label \<open>key\<close>\<^verbatim>\<open>_params.\<close> followed by the type name
  of the first element and with the sequence as its values, is registered at the dimension
  index that is the number of entries registered so far; and the length of the sequence is
  appended to the plugin's extra dimensions. Nothing else of the state changes.
\<close>

theorem multi_params_registered:
  assumes "is_multi_param key v"
    and "convert_multi_params key v = (PList (x # xs), [])"
  shows "check_multi_params is_multi_param convert_multi_params v key st =
           (Inr (),
            st\<lparr>parameters := od_set (parameters st) key (PList (x # xs)),
               plugin_class := (plugin_class st)
                 \<lparr>multi_params_dict :=
                    od_set (multi_params_dict (plugin_class st))
                      (length (multi_params_dict (plugin_class st)))
                      [(PStr ''label'', PStr (key @ ''_params.'' @ type_name x)),
                       (PStr ''values'', PList (x # xs))],
                  extra_dims := extra_dims (plugin_class st) @ [length (x # xs)]\<rparr>\<rparr>)"
  using assms
  by (simp add: check_multi_params_def Let_def seq_index_def seq_pos_def
      alter_multi_params_dict_def append_extra_dims_def get_multi_params_dict_def)

text \<open>The override \<^verbatim>\<open>"1;2;3"\<close> of the parameter \<open>threshold\<close>, converted to the sequence
  of the integers 1, 2, 3: the value becomes the sequence, and the plugin gets one sweep
  entry of three elements and the extra dimension 3.\<close>

theorem multi_params_registered_witness:
  "all_multi ''threshold'' (PStr ''1;2;3'')
   \<and> convert_to_123 ''threshold'' (PStr ''1;2;3'') = (PList (PInt 1 # [PInt 2, PInt 3]), [])
   \<and> check_multi_params all_multi convert_to_123 (PStr ''1;2;3'') ''threshold''
        (loaded [] [(''threshold'', PInt 0)])
      = (Inr (),
         \<lparr>param = [], parameters = [(''threshold'', PList [PInt 1, PInt 2, PInt 3])],
          plugin_class =
            \<lparr>name = ''P'',
             multi_params_dict =
               [(0, [(PStr ''label'', PStr ''threshold_params.int''),
                     (PStr ''values'', PList [PInt 1, PInt 2, PInt 3])])],
             extra_dims = [3]\<rparr>,
          console = []\<rparr>)"
proof -
  have a: "all_multi ''threshold'' (PStr ''1;2;3'')" by (simp add: all_multi_def)
  have b: "convert_to_123 ''threshold'' (PStr ''1;2;3'') = (PList (PInt 1 # [PInt 2, PInt 3]), [])"
    by (simp add: convert_to_123_def)
  from multi_params_registered[of all_multi "''threshold''" "PStr ''1;2;3''" convert_to_123
      "PInt 1" "[PInt 2, PInt 3]" "loaded [] [(''threshold'', PInt 0)]"] a b
  show ?thesis by (simp add: loaded_def plugin_P_def)
qed

text \<open>
  Claim C5 as stated (a conversion that fails with an error string makes the override
  raise \<^verbatim>\<open>ValueError\<close>) does not hold: \<^verbatim>\<open>__check_multi_params\<close> has no branch for a
  non-empty error string. Overriding \<open>threshold\<close> with a value whose conversion fails
  returns normally and leaves the state, the old value of \<open>threshold\<close> included, as it
  was.
\<close>

theorem failed_conversion_counterexample:
  "set_plugin_list_parameters all_multi convert_fails [(''threshold'', PStr ''1;;3'')]
        (loaded [] [(''threshold'', PInt 1)]) = (Inr (), loaded [] [(''threshold'', PInt 1)])"
  by (simp add: check_multi_params_def all_multi_def convert_fails_def loaded_def)

text \<open>
  Claim C5, amended: when the override has the multi-value syntax and its conversion
  fails with a non-empty error string, \<^verbatim>\<open>__check_multi_params\<close> raises nothing and
  changes nothing: the override is ignored and the parameter keeps its value.
\<close>

theorem failed_conversion_is_dropped:
  assumes "is_multi_param key v" and "snd (convert_multi_params key v) \<noteq> []"
  shows "check_multi_params is_multi_param convert_multi_params v key st = (Inr (), st)"
  using assms by (cases "convert_multi_params key v") (simp add: check_multi_params_def)

theorem failed_conversion_is_dropped_witness:
  "all_multi ''threshold'' (PStr ''1;;3'')
   \<and> snd (convert_fails ''threshold'' (PStr ''1;;3'')) \<noteq> []
   \<and> check_multi_params all_multi convert_fails (PStr ''1;;3'') ''threshold''
        (loaded [] [(''threshold'', PInt 1)]) = (Inr (), loaded [] [(''threshold'', PInt 1)])"
proof -
  have a: "all_multi ''threshold'' (PStr ''1;;3'')" by (simp add: all_multi_def)
  have b: "snd (convert_fails ''threshold'' (PStr ''1;;3'')) \<noteq> []"
    by (simp add: convert_fails_def)
  from failed_conversion_is_dropped[of all_multi "''threshold''" "PStr ''1;;3''" convert_fails
      "loaded [] [(''threshold'', PInt 1)]"] a b
  show ?thesis by simp
qed

text \<open>
  Claim C6 as stated (an unknown key raises \<^verbatim>\<open>ValueError\<close> and no value is mutated,
  known keys of the same mapping included) does not hold: the loop applies each override
  as it meets it. With the value-set \<open>a = 1\<close> and the overrides \<open>a = 5\<close>, \<open>zzz = 1\<close> in
  that order, the \<^verbatim>\<open>ValueError\<close> for \<open>zzz\<close> is raised after \<open>a\<close> has become \<open>5\<close>.
\<close>

theorem unknown_key_after_known_counterexample:
  "set_plugin_list_parameters none_multi convert_to_123 [(''a'', PInt 5), (''zzz'', PInt 1)]
       (loaded [] [(''a'', PInt 1)])
     = (Inl (ValueError (not_valid_message ''zzz'' ''P'')), loaded [] [(''a'', PInt 5)])
   \<and> parameters (loaded [] [(''a'', PInt 5)]) \<noteq> parameters (loaded [] [(''a'', PInt 1)])"
  by (simp add: loaded_def plugin_P_def check_multi_params_def none_multi_def)

text \<open>
  Claim C6, amended: when the overrides that precede a key in the mapping have been
  applied without an exception and the key is no parameter of the plugin,
  \<^verbatim>\<open>set_plugin_list_parameters\<close> raises the \<^verbatim>\<open>ValueError\<close> whose message names that key
  and the plugin; the state is the one the preceding overrides left (the unchanged one
  when the unknown key comes first), and the overrides after the key are not applied.
\<close>

theorem unknown_key_raises:
  assumes "set_plugin_list_parameters im cv pre st = (Inr (), st')"
    and "key \<notin> set (map fst (parameters st))"
  shows "set_plugin_list_parameters im cv (pre @ (key, v) # post) st =
           (Inl (ValueError (not_valid_message key (name (plugin_class st)))), st')"
proof -
  from set_plugin_list_parameters_keeps[OF assms(1)]
  have "map fst (parameters st') = map fst (parameters st)"
    and "name (plugin_class st') = name (plugin_class st)" by simp_all
  with assms(2) have "key \<notin> set (map fst (parameters st'))"
    and n: "name (plugin_class st') = name (plugin_class st)" by simp_all
  then show ?thesis
    using assms(1) by (simp add: set_plugin_list_parameters_append)
qed

theorem unknown_key_raises_witness:
  "set_plugin_list_parameters none_multi convert_to_123 [(''a'', PInt 5)]
       (loaded [] [(''a'', PInt 1)]) = (Inr (), loaded [] [(''a'', PInt 5)])
   \<and> ''zzz'' \<notin> set (map fst (parameters (loaded [] [(''a'', PInt 1)])))
   \<and> set_plugin_list_parameters none_multi convert_to_123
       ([(''a'', PInt 5)] @ (''zzz'', PInt 1) # [(''a'', PInt 9)]) (loaded [] [(''a'', PInt 1)])
     = (Inl (ValueError (not_valid_message ''zzz'' ''P'')), loaded [] [(''a'', PInt 5)])"
proof -
  have a: "set_plugin_list_parameters none_multi convert_to_123 [(''a'', PInt 5)]
       (loaded [] [(''a'', PInt 1)]) = (Inr (), loaded [] [(''a'', PInt 5)])"
    by (simp add: loaded_def check_multi_params_def none_multi_def)
  have b: "''zzz'' \<notin> set (map fst (parameters (loaded [] [(''a'', PInt 1)])))"
    by (simp add: loaded_def)
  from unknown_key_raises[OF a b, of "PInt 1" "[(''a'', PInt 9)]"] a b show ?thesis
    by (simp add: loaded_def plugin_P_def)
qed

subsection \<open>Dependent display\<close>

lemma map_fst_set_field: "map fst (set_field defs q k v) = map fst defs"
  by (induction defs) (auto simp: set_field_def)

lemma map_of_set_field:
  "map_of (set_field defs q k v) p =
     (if p = q then map_option (\<lambda>r. pd_set r (PStr k) v) (map_of defs p) else map_of defs p)"
  by (induction defs) (auto simp: set_field_def)

lemma dep_list_fst: "set (map fst (dep_list defs)) \<subseteq> set (map fst defs)"
  by (induction defs) (auto simp: dep_list_def List.map_filter_simps split: option.splits)

lemma dep_list_distinct: "distinct (map fst defs) \<Longrightarrow> distinct (map fst (dep_list defs))"
proof (induction defs)
  case Nil
  show ?case by (simp add: dep_list_def List.map_filter_simps)
next
  case (Cons a defs)
  obtain k r where a: "a = (k, r)" by (cases a)
  from Cons.prems a have "k \<notin> set (map fst defs)" by simp
  with dep_list_fst[of defs] have "k \<notin> set (map fst (dep_list defs))" by blast
  moreover have "dep_list (a # defs) =
      (case pd_get r (PStr ''dependency'') of None \<Rightarrow> dep_list defs
       | Some d \<Rightarrow> (k, d) # dep_list defs)"
    by (simp add: a dep_list_def List.map_filter_simps split: option.splits)
  ultimately show ?case using Cons by (simp split: option.splits)
qed

lemma dep_list_member:
  "distinct (map fst defs) \<Longrightarrow> map_of defs p = Some r \<Longrightarrow>
     pd_get r (PStr ''dependency'') = Some dep \<Longrightarrow> (p, dep) \<in> set (dep_list defs)"
proof (induction defs)
  case Nil
  then show ?case by simp
next
  case (Cons a defs)
  obtain k r0 where a: "a = (k, r0)" by (cases a)
  have eq: "dep_list (a # defs) =
      (case pd_get r0 (PStr ''dependency'') of None \<Rightarrow> dep_list defs
       | Some d \<Rightarrow> (k, d) # dep_list defs)"
    by (simp add: a dep_list_def List.map_filter_simps split: option.splits)
  show ?case
  proof (cases "k = p")
    case True
    with Cons.prems a have "r0 = r" by simp
    with Cons.prems True eq show ?thesis by simp
  next
    case False
    with Cons.prems a have "map_of defs p = Some r" "distinct (map fst defs)" by simp_all
    from Cons.IH[OF this(2) this(1) Cons.prems(3)] eq show ?thesis
      by (simp split: option.splits)
  qed
qed

lemma dependencies_loop_other:
  "p \<notin> set (map fst dl) \<Longrightarrow> dependencies_loop ps dl defs = (res, defs') \<Longrightarrow>
     map_of defs' p = map_of defs p"
proof (induction dl arbitrary: defs)
  case Nil
  then show ?case by simp
next
  case (Cons a dl)
  obtain q d where a: "a = (q, d)" by (cases a)
  with Cons.prems have pq: "p \<noteq> q" and pdl: "p \<notin> set (map fst dl)" by auto
  show ?case
  proof (cases "dependency_display ps d")
    case (Inl e)
    with Cons.prems a show ?thesis by simp
  next
    case (Inr x)
    show ?thesis
    proof (cases x)
      case None
      with Inr Cons.prems a have "dependencies_loop ps dl defs = (res, defs')" by simp
      from Cons.IH[OF pdl this] show ?thesis .
    next
      case (Some flag)
      with Inr Cons.prems a
      have "dependencies_loop ps dl (set_field defs q ''display'' (PStr flag)) = (res, defs')"
        by simp
      from Cons.IH[OF pdl this] pq show ?thesis by (simp add: map_of_set_field)
    qed
  qed
qed

lemma dependencies_loop_member:
  "distinct (map fst dl) \<Longrightarrow> (p, dep) \<in> set dl \<Longrightarrow>
   dependencies_loop ps dl defs = (Inr (), defs') \<Longrightarrow>
     (\<exists>x. dependency_display ps dep = Inr x) \<and>
     map_of defs' p = map_option (flagged (dependency_display ps dep)) (map_of defs p)"
proof (induction dl arbitrary: defs)
  case Nil
  then show ?case by simp
next
  case (Cons a dl)
  obtain q d where a: "a = (q, d)" by (cases a)
  from Cons.prems(1) a have qdl: "q \<notin> set (map fst dl)" and dist: "distinct (map fst dl)"
    by simp_all
  obtain x where x: "dependency_display ps d = Inr x"
    using Cons.prems(3) a by (cases "dependency_display ps d") simp_all
  define defs1 where "defs1 = (case x of None \<Rightarrow> defs
      | Some flag \<Rightarrow> set_field defs q ''display'' (PStr flag))"
  have loop: "dependencies_loop ps dl defs1 = (Inr (), defs')"
    using Cons.prems(3) a x by (cases x) (simp_all add: defs1_def)
  show ?case
  proof (cases "q = p")
    case True
    with Cons.prems(1,2) a have "d = dep"
      by (auto simp: rev_image_eqI)
    from dependencies_loop_other[OF qdl loop] have "map_of defs' q = map_of defs1 q" .
    with True \<open>d = dep\<close> x show ?thesis
      by (cases x) (simp_all add: defs1_def map_of_set_field flagged_def option.map_ident)
  next
    case False
    with Cons.prems(2) a have "(p, dep) \<in> set dl" by simp
    from Cons.IH[OF dist this loop] False show ?thesis
      by (cases x) (simp_all add: defs1_def map_of_set_field)
  qed
qed


text \<open>
  Claim C3 as stated (with the parent absent from the value mapping the display flag is
  off, for both kinds of dependency) does not hold: \<^verbatim>\<open>check_dependencies\<close> assigns the
  flag only inside \<^verbatim>\<open>if ... in parameters\<close>. With an empty value mapping the flag of
  \<open>threshold\<close> stays on, as loading set it, whether its dependency is the name \<open>mode\<close>
  or the mapping \<^verbatim>\<open>{mode: [manual]}\<close>.
\<close>

theorem absent_parent_counterexample:
  "check_dependencies [] (loaded (mode_defs (PStr ''mode'')) [])
     = (Inr (), loaded (mode_defs (PStr ''mode'')) [])
   \<and> check_dependencies [] (loaded (mode_defs (PDict [(PStr ''mode'', PList [PStr ''manual''])])) [])
     = (Inr (), loaded (mode_defs (PDict [(PStr ''mode'', PList [PStr ''manual''])])) [])
   \<and> map_of (mode_defs (PStr ''mode'')) ''threshold''
     = Some [(PStr ''default'', PInt 1), (PStr ''dependency'', PStr ''mode''),
             (PStr ''display'', PStr ''on'')]
   \<and> map_of (mode_defs (PDict [(PStr ''mode'', PList [PStr ''manual''])])) ''threshold''
     = Some [(PStr ''default'', PInt 1),
             (PStr ''dependency'', PDict [(PStr ''mode'', PList [PStr ''manual''])]),
             (PStr ''display'', PStr ''on'')]"
  by (simp add: check_dependencies_def loaded_def mode_defs_def set_display_def dep_list_def
      List.map_filter_simps dependency_display_def py_eq_def)

text \<open>
  Claim C3, amended: let \<^verbatim>\<open>check_dependencies\<close> return normally on a definition
  dictionary, and let the parameter \<open>p\<close> carry the dependency \<open>dep\<close>. If \<open>dep\<close> is a
  parent name: with the parent absent from the value mapping the record of \<open>p\<close>, its
  display flag included, is left as it was; otherwise the flag is off when the parent's
  value is \<^verbatim>\<open>None\<close> or prints as \<^verbatim>\<open>None\<close>, and on otherwise. If \<open>dep\<close> is a mapping
  whose first item is the parent with its allowed values: with the parent absent the
  record is left as it was; otherwise the flag is on if the parent's value, as a string,
  is in the allowed values, and off if not. No other field of the record changes.
\<close>

theorem check_dependencies_display:
  assumes "distinct (map fst (param st))"
    and "check_dependencies ps st = (Inr (), st')"
    and "map_of (param st) p = Some r"
    and "pd_get r (PStr ''dependency'') = Some dep"
  shows "(dep = PStr parent \<longrightarrow>
            (map_of ps parent = None \<longrightarrow> map_of (param st') p = Some r) \<and>
            (\<forall>v. map_of ps parent = Some v \<longrightarrow>
                 map_of (param st') p =
                   Some (pd_set r (PStr ''display'')
                           (PStr (if v = PNone \<or> py_str v = ''None'' then ''off'' else ''on'')))))
       \<and> (dep = PDict ((parent_key, allowed) # others) \<longrightarrow>
            (od_find ps parent_key = None \<longrightarrow> map_of (param st') p = Some r) \<and>
            (\<forall>v. od_find ps parent_key = Some v \<longrightarrow>
                 map_of (param st') p =
                   Some (pd_set r (PStr ''display'')
                           (PStr (if py_in (PStr (py_str v)) allowed = Inr True
                                  then ''on'' else ''off'')))))"
proof -
  from assms(2) have loop:
    "dependencies_loop ps (dep_list (param st)) (param st) = (Inr (), param st')"
    by (auto simp: check_dependencies_def split: prod.splits)
  from dependencies_loop_member[OF dep_list_distinct[OF assms(1)]
      dep_list_member[OF assms(1,3,4)] loop] assms(3)
  obtain x where x: "dependency_display ps dep = Inr x"
    and r': "map_of (param st') p = Some (flagged (Inr x) r)" by auto
  show ?thesis
  proof (intro conjI impI allI)
    assume "dep = PStr parent" "map_of ps parent = None"
    with x r' show "map_of (param st') p = Some r"
      by (auto simp: dependency_display_def flagged_def)
  next
    fix v assume "dep = PStr parent" "map_of ps parent = Some v"
    with x r' show "map_of (param st') p =
        Some (pd_set r (PStr ''display'')
               (PStr (if v = PNone \<or> py_str v = ''None'' then ''off'' else ''on'')))"
      by (auto simp: dependency_display_def flagged_def)
  next
    assume "dep = PDict ((parent_key, allowed) # others)" "od_find ps parent_key = None"
    with x r' show "map_of (param st') p = Some r"
      by (auto simp: dependency_display_def flagged_def)
  next
    fix v assume "dep = PDict ((parent_key, allowed) # others)" "od_find ps parent_key = Some v"
    with x r' show "map_of (param st') p =
        Some (pd_set r (PStr ''display'')
               (PStr (if py_in (PStr (py_str v)) allowed = Inr True then ''on'' else ''off'')))"
      by (auto simp: dependency_display_def flagged_def split: sum.splits)
  qed
qed


text \<open>The specification's example: \<open>threshold\<close> depends on \<open>mode\<close> being
  \<open>manual\<close>; with \<open>mode = auto\<close> its display flag goes off.\<close>

theorem check_dependencies_display_witness:
  "distinct (map fst (param (loaded (mode_defs (PDict [(PStr ''mode'', PList [PStr ''manual''])])) [])))
   \<and> check_dependencies [(''mode'', PStr ''auto'')]
         (loaded (mode_defs (PDict [(PStr ''mode'', PList [PStr ''manual''])])) [])
       = (Inr (),
          loaded (set_field (mode_defs (PDict [(PStr ''mode'', PList [PStr ''manual''])]))
                    ''threshold'' ''display'' (PStr ''off'')) [])
   \<and> map_of (param (loaded (mode_defs (PDict [(PStr ''mode'', PList [PStr ''manual''])])) []))
         ''threshold''
       = Some [(PStr ''default'', PInt 1),
               (PStr ''dependency'', PDict [(PStr ''mode'', PList [PStr ''manual''])]),
               (PStr ''display'', PStr ''on'')]
   \<and> pd_get [(PStr ''default'', PInt 1),
              (PStr ''dependency'', PDict [(PStr ''mode'', PList [PStr ''manual''])]),
              (PStr ''display'', PStr ''on'')] (PStr ''dependency'')
       = Some (PDict [(PStr ''mode'', PList [PStr ''manual''])])
   \<and> map_of (param (loaded (set_field (mode_defs (PDict [(PStr ''mode'', PList [PStr ''manual''])]))
                    ''threshold'' ''display'' (PStr ''off'')) [])) ''threshold''
       = Some [(PStr ''default'', PInt 1),
               (PStr ''dependency'', PDict [(PStr ''mode'', PList [PStr ''manual''])]),
               (PStr ''display'', PStr ''off'')]"
proof -
  let ?D = "PDict [(PStr ''mode'', PList [PStr ''manual''])]"
  let ?r = "[(PStr ''default'', PInt 1), (PStr ''dependency'', ?D),
             (PStr ''display'', PStr ''on'')]"
  have a: "distinct (map fst (param (loaded (mode_defs ?D) [])))"
    by (simp add: loaded_def mode_defs_def set_display_def)
  have b: "check_dependencies [(''mode'', PStr ''auto'')] (loaded (mode_defs ?D) [])
       = (Inr (), loaded (set_field (mode_defs ?D) ''threshold'' ''display'' (PStr ''off'')) [])"
    by (simp add: check_dependencies_def loaded_def mode_defs_def set_display_def dep_list_def
        List.map_filter_simps dependency_display_def py_eq_def)
  have c: "map_of (param (loaded (mode_defs ?D) [])) ''threshold'' = Some ?r"
    by (simp add: loaded_def mode_defs_def set_display_def py_eq_def)
  have d: "pd_get ?r (PStr ''dependency'') = Some ?D"
    by (simp add: py_eq_def)
  from check_dependencies_display[OF a b c d, of "''mode''" "PStr ''mode''"
      "PList [PStr ''manual'']" "[]"]
  have "map_of (param (loaded (set_field (mode_defs ?D) ''threshold'' ''display'' (PStr ''off'')) []))
          ''threshold''
        = Some (pd_set ?r (PStr ''display'') (PStr ''off''))"
    by (simp add: py_eq_def)
  with a b c d show ?thesis by (simp add: py_eq_def)
qed

subsection \<open>Idempotence of the default-resolution pass\<close>

lemma pd_get_pd_set_str:
  "pd_get (pd_set r (PStr k) v) (PStr k') = (if k = k' then Some v else pd_get r (PStr k'))"
  by (induction r) (auto simp: py_eq_PStr_right)

lemma same_rules_refl: "same_rules d d"
  by (simp add: same_rules_def list_all2_refl)

lemma same_rules_trans: "same_rules a b \<Longrightarrow> same_rules b c \<Longrightarrow> same_rules a c"
  unfolding same_rules_def
  by (erule list_all2_trans[rotated]) auto

lemma same_rules_set_display: "same_rules d (set_field d q ''display'' v)"
  by (induction d) (auto simp: same_rules_def set_field_def pd_get_pd_set_str)

lemma dependencies_loop_same_rules:
  "same_rules defs (snd (dependencies_loop ps dl defs))"
proof (induction dl arbitrary: defs)
  case Nil
  show ?case by (simp add: same_rules_refl)
next
  case (Cons a dl)
  obtain q d where a: "a = (q, d)" by (cases a)
  show ?case
  proof (cases "dependency_display ps d")
    case (Inl e)
    with a show ?thesis by (simp add: same_rules_refl)
  next
    case (Inr x)
    show ?thesis
    proof (cases x)
      case None
      with Inr a Cons.IH[of defs] show ?thesis by simp
    next
      case (Some flag)
      with Inr a Cons.IH[of "set_field defs q ''display'' (PStr flag)"]
        same_rules_set_display[of defs q "PStr flag"]
      show ?thesis by (auto intro: same_rules_trans)
    qed
  qed
qed

lemma dependencies_loop_outcome:
  "fst (dependencies_loop ps dl defs) = fst (dependencies_loop ps dl defs2)"
proof (induction dl arbitrary: defs defs2)
  case Nil
  show ?case by simp
next
  case (Cons a dl)
  obtain q d where a: "a = (q, d)" by (cases a)
  show ?case
    using a Cons.IH
    by (cases "dependency_display ps d") (auto split: option.splits)
qed

lemma same_rules_default_items: "same_rules d d' \<Longrightarrow> default_items d = default_items d'"
  unfolding same_rules_def
  by (induction d d' rule: list_all2_induct) (auto split: option.splits sum.splits)

lemma dep_list_Cons:
  "dep_list (a # defs) =
     (case pd_get (snd a) (PStr ''dependency'') of
        None \<Rightarrow> dep_list defs
      | Some d \<Rightarrow> (fst a, d) # dep_list defs)"
  by (cases a) (simp add: dep_list_def List.map_filter_simps split: option.splits)

lemma same_rules_dep_list: "same_rules d d' \<Longrightarrow> dep_list d = dep_list d'"
  unfolding same_rules_def
proof (induction d d' rule: list_all2_induct)
  case Nil
  show ?case by simp
next
  case (Cons a d b d')
  then show ?case by (auto simp: dep_list_Cons split: option.splits)
qed

lemma same_rules_map_of:
  "same_rules d d' \<Longrightarrow>
     (case map_of d s of
        None \<Rightarrow> map_of d' s = None
      | Some r \<Rightarrow> (\<exists>r'. map_of d' s = Some r'
                    \<and> pd_get r (PStr ''default'') = pd_get r' (PStr ''default'')))"
  unfolding same_rules_def
  by (induction d d' rule: list_all2_induct) (auto split: option.splits)

lemma same_rules_does_exist:
  assumes "same_rules d d'"
  shows "(case does_exist k d of
            Inl e \<Rightarrow> does_exist k d' = Inl e
          | Inr r \<Rightarrow> (\<exists>r'. does_exist k d' = Inr r'
                       \<and> pd_get r (PStr ''default'') = pd_get r' (PStr ''default'')))"
proof (cases k)
  case (PStr s)
  with same_rules_map_of[OF assms, of s] show ?thesis
    by (auto simp: does_exist_def split: option.splits)
qed (simp_all add: does_exist_def)

lemma get_dependent_default_cong:
  assumes "same_rules pdefs pdefs'"
    and "pd_get child (PStr ''default'') = pd_get child' (PStr ''default'')"
  shows "get_dependent_default depth pdefs child ps = get_dependent_default depth pdefs' child' ps"
  using assms(2)
proof (induction depth arbitrary: child child' ps)
  case 0
  show ?case by simp
next
  case (Suc depth)
  show ?case
  proof (cases "pd_get child (PStr ''default'')")
    case None
    with Suc.prems show ?thesis by simp
  next
    case (Some dv)
    show ?thesis
    proof (cases dv)
      case (PDict d)
      show ?thesis
      proof (cases d)
        case Nil
        with Some PDict Suc.prems show ?thesis by simp
      next
        case (Cons kv rest)
        obtain parent_name branches where kv: "kv = (parent_name, branches)" by (cases kv)
        show ?thesis
        proof (cases "does_exist parent_name pdefs")
          case (Inl e)
          with same_rules_does_exist[OF assms(1), of parent_name]
          have "does_exist parent_name pdefs' = Inl e" by simp
          with Inl Some PDict Cons kv Suc.prems show ?thesis by simp
        next
          case (Inr parent)
          with same_rules_does_exist[OF assms(1), of parent_name]
          obtain parent' where p': "does_exist parent_name pdefs' = Inr parent'"
            and eq: "pd_get parent (PStr ''default'') = pd_get parent' (PStr ''default'')"
            by auto
          have rec: "get_dependent_default depth pdefs pd ps0
                     = get_dependent_default depth pdefs' pd ps0" for pd ps0
            by (rule Suc.IH) simp
          from Inr p' eq Some PDict Cons kv Suc.prems rec show ?thesis
            by (simp split: option.splits pyval.splits)
        qed
      qed
    qed (use Some Suc.prems in simp_all)
  qed
qed

lemma update_loop_cong:
  assumes "same_rules pdefs pdefs'"
  shows "same_rules items items' \<Longrightarrow>
     update_loop depth pdefs items ps = update_loop depth pdefs' items' ps"
  unfolding same_rules_def[of items items']
proof (induction items items' arbitrary: ps rule: list_all2_induct)
  case Nil
  show ?case by simp
next
  case (Cons a items b items')
  obtain nm r where a: "a = (nm, r)" by (cases a)
  obtain nm' r' where b: "b = (nm', r')" by (cases b)
  from Cons(1) a b have nm: "nm' = nm"
    and d: "pd_get r (PStr ''default'') = pd_get r' (PStr ''default'')" by simp_all
  from get_dependent_default_cong[OF assms d]
  have g: "get_dependent_default depth pdefs r ps = get_dependent_default depth pdefs' r' ps" .
  show ?case
    using a b nm d g Cons.IH
    by (auto split: option.splits prod.splits sum.splits)
qed


lemma populate_twice:
  "fst (populate_default_parameters depth (snd (populate_default_parameters depth st)))
     = fst (populate_default_parameters depth st)
   \<and> parameters (snd (populate_default_parameters depth (snd (populate_default_parameters depth st))))
     = parameters (snd (populate_default_parameters depth st))"
proof (cases "default_items (param st)")
  case (Inl e)
  then have "populate_default_parameters depth st = (Inl e, st)"
    by (simp add: populate_default_parameters_def)
  then show ?thesis by simp
next
  case (Inr ps)
  obtain ru psu where u: "update_loop depth (param st) (param st) ps = (ru, psu)"
    by (cases "update_loop depth (param st) (param st) ps")
  define st1 where "st1 = snd (populate_default_parameters depth st)"
  show ?thesis
  proof (cases ru)
    case (Inl e)
    with Inr u have p1: "populate_default_parameters depth st = (Inl e, st\<lparr>parameters := psu\<rparr>)"
      by (simp add: populate_default_parameters_def update_dependent_defaults_def)
    have "populate_default_parameters depth (st\<lparr>parameters := psu\<rparr>)
            = (Inl e, st\<lparr>parameters := psu\<rparr>)"
      using Inr u Inl
      by (simp add: populate_default_parameters_def update_dependent_defaults_def)
    with p1 show ?thesis by simp
  next
    case (Inr uu)
    let ?dl = "dependencies_loop psu (dep_list (param st)) (param st)"
    from \<open>default_items (param st) = Inr ps\<close> u Inr
    have p1: "populate_default_parameters depth st
                = (fst ?dl, st\<lparr>parameters := psu, param := snd ?dl\<rparr>)"
      by (simp add: populate_default_parameters_def update_dependent_defaults_def
          check_dependencies_def split: prod.splits)
    have sr: "same_rules (param st) (snd ?dl)"
      by (rule dependencies_loop_same_rules)
    from sr have sr': "same_rules (snd ?dl) (param st)"
      unfolding same_rules_def by (simp add: list_all2_conv_all_nth)
    have d2: "default_items (snd ?dl) = Inr ps"
      using same_rules_default_items[OF sr] \<open>default_items (param st) = Inr ps\<close> by simp
    have u2: "update_loop depth (snd ?dl) (snd ?dl) ps = (ru, psu)"
      using update_loop_cong[OF sr' sr', of depth ps] u by simp
    have dl2: "dep_list (snd ?dl) = dep_list (param st)"
      using same_rules_dep_list[OF sr] by simp
    have "populate_default_parameters depth (st\<lparr>parameters := psu, param := snd ?dl\<rparr>)
            = (fst (dependencies_loop psu (dep_list (param st)) (snd ?dl)),
               st\<lparr>parameters := psu,
                  param := snd (dependencies_loop psu (dep_list (param st)) (snd ?dl))\<rparr>)"
      using d2 u2 dl2 Inr
      by (simp add: populate_default_parameters_def update_dependent_defaults_def
          check_dependencies_def split: prod.splits)
    with p1 dependencies_loop_outcome[of psu "dep_list (param st)" "snd ?dl" "param st"]
    show ?thesis by simp
  qed
qed


text \<open>Where no descriptor has the key \<^verbatim>\<open>default\<close>, the recursive call of
  \<^verbatim>\<open>get_dependent_default\<close> raises at once, so the recursion is never more than two calls
  deep and a recursion limit of two or more is never reached.\<close>

lemma does_exist_member: "does_exist k pdefs = Inr r \<Longrightarrow> r \<in> snd ` set pdefs"
  by (cases k) (auto simp: does_exist_def split: option.splits dest: map_of_SomeD intro: rev_image_eqI)

lemma plain_descriptors_member:
  "plain_descriptors pdefs \<Longrightarrow> r \<in> snd ` set pdefs \<Longrightarrow>
     pd_get r (PStr ''default'') = Some (PDict d) \<Longrightarrow> pd_get d (PStr ''default'') = None"
  by (auto simp: plain_descriptors_def list_all_iff)

lemma get_dependent_default_depth:
  assumes "plain_descriptors pdefs"
  shows "get_dependent_default (Suc (Suc n)) pdefs child ps
           = get_dependent_default (Suc (Suc 0)) pdefs child ps"
proof -
  have inner: "get_dependent_default (Suc n) pdefs pd ps0 = get_dependent_default (Suc 0) pdefs pd ps0"
    if "does_exist k pdefs = Inr parent" "pd_get parent (PStr ''default'') = Some (PDict pd)"
    for k parent pd ps0
  proof -
    from plain_descriptors_member[OF assms does_exist_member[OF that(1)] that(2)]
    show ?thesis by simp
  qed
  show ?thesis
  proof (cases "pd_get child (PStr ''default'')")
    case None
    then show ?thesis by simp
  next
    case (Some dv)
    show ?thesis
    proof (cases dv)
      case (PDict d)
      show ?thesis
      proof (cases d)
        case Nil
        with Some PDict show ?thesis by simp
      next
        case (Cons kv rest)
        obtain parent_name branches where kv: "kv = (parent_name, branches)" by (cases kv)
        show ?thesis
        proof (cases "does_exist parent_name pdefs")
          case (Inl e)
          with Some PDict Cons kv show ?thesis by simp
        next
          case (Inr parent)
          show ?thesis
          proof (cases "pd_get parent (PStr ''default'')")
            case None
            with Inr Some PDict Cons kv show ?thesis by simp
          next
            case (Some pdv)
            show ?thesis
            proof (cases pdv)
              case (PDict pd)
              from inner[OF Inr, of pd ps] Some PDict
              have "get_dependent_default (Suc n) pdefs pd ps
                      = get_dependent_default (Suc 0) pdefs pd ps" by simp
              with Inr Some PDict \<open>pd_get child (PStr ''default'') = Some dv\<close> \<open>dv = PDict d\<close>
                Cons kv
              show ?thesis by (simp del: get_dependent_default.simps
                    add: get_dependent_default.simps(2)[of "Suc n"] get_dependent_default.simps(2)[of "Suc 0"])
            qed (use Inr Some  \<open>pd_get child (PStr ''default'') = Some dv\<close> \<open>dv = PDict d\<close>
                Cons kv in simp_all)
          qed
        qed
      qed
    qed (use Some in simp_all)
  qed
qed

lemma update_loop_depth:
  assumes "plain_descriptors pdefs"
  shows "update_loop (Suc (Suc n)) pdefs items ps = update_loop (Suc (Suc 0)) pdefs items ps"
proof (induction items arbitrary: ps)
  case Nil
  show ?case by simp
next
  case (Cons a items)
  obtain nm r where a: "a = (nm, r)" by (cases a)
  show ?case
    using a Cons.IH get_dependent_default_depth[OF assms, of n r ps]
    by (simp del: get_dependent_default.simps split: option.splits prod.splits sum.splits)
qed

lemma populate_depth:
  assumes "plain_descriptors (param st)"
  shows "populate_default_parameters (Suc (Suc n)) st = populate_default_parameters (Suc (Suc 0)) st"
proof -
  have "update_loop (Suc (Suc n)) (param st) (param st) ps
          = update_loop (Suc (Suc 0)) (param st) (param st) ps" for ps
    by (rule update_loop_depth[OF assms])
  then have "update_dependent_defaults (Suc (Suc n)) st' = update_dependent_defaults (Suc (Suc 0)) st'"
    if "param st' = param st" for st'
    using that by (simp add: update_dependent_defaults_def del: update_loop.simps)
  then show ?thesis
    by (simp add: populate_default_parameters_def del: update_loop.simps split: sum.splits)
qed


text \<open>
  Claim C9: running \<^verbatim>\<open>_populate_default_parameters\<close> a second time, on the state the first
  run left, ends as the first run ended (normally, or with the same exception) and leaves
  the same value-set, for every definition dictionary and every recursion limit. The pass
  always ends, since the model is total, a call at the recursion limit raising
  \<^verbatim>\<open>RecursionError\<close>; and where no descriptor has the key \<^verbatim>\<open>default\<close> the limit is
  not involved: every limit of two or more gives the outcome and the state that the limit
  two gives.
\<close>

theorem populate_idempotent:
  "fst (populate_default_parameters depth (snd (populate_default_parameters depth st)))
     = fst (populate_default_parameters depth st)
   \<and> parameters (snd (populate_default_parameters depth (snd (populate_default_parameters depth st))))
     = parameters (snd (populate_default_parameters depth st))
   \<and> (plain_descriptors (param st) \<longrightarrow>
        populate_default_parameters (Suc (Suc n)) st
          = populate_default_parameters (Suc (Suc 0)) st)"
  using populate_twice[of depth st] populate_depth[of st n] by blast

text \<open>The chain of depth one, \<open>B\<close> on \<open>C\<close>: the pass resolves \<open>B\<close> to \<open>x\<close>, and run
  again on its own result it returns that result.\<close>

theorem populate_idempotent_witness:
  "plain_descriptors
     (param (loaded [(''C'', [(PStr ''default'', PInt 2)]),
                     (''B'', [(PStr ''default'', PDict [(PStr ''C'', PDict [(PInt 2, PStr ''x'')])])])] []))
   \<and> populate_default_parameters (Suc (Suc 3))
       (loaded [(''C'', [(PStr ''default'', PInt 2)]),
                (''B'', [(PStr ''default'', PDict [(PStr ''C'', PDict [(PInt 2, PStr ''x'')])])])] [])
     = (Inr (),
        loaded [(''C'', [(PStr ''default'', PInt 2)]),
                (''B'', [(PStr ''default'', PDict [(PStr ''C'', PDict [(PInt 2, PStr ''x'')])])])]
          [(''C'', PInt 2), (''B'', PStr ''x'')])
   \<and> populate_default_parameters (Suc (Suc 3))
       (loaded [(''C'', [(PStr ''default'', PInt 2)]),
                (''B'', [(PStr ''default'', PDict [(PStr ''C'', PDict [(PInt 2, PStr ''x'')])])])]
          [(''C'', PInt 2), (''B'', PStr ''x'')])
     = (Inr (),
        loaded [(''C'', [(PStr ''default'', PInt 2)]),
                (''B'', [(PStr ''default'', PDict [(PStr ''C'', PDict [(PInt 2, PStr ''x'')])])])]
          [(''C'', PInt 2), (''B'', PStr ''x'')])"
proof -
  let ?defs = "[(''C'', [(PStr ''default'', PInt 2)]),
                (''B'', [(PStr ''default'', PDict [(PStr ''C'', PDict [(PInt 2, PStr ''x'')])])])]"
  have a: "plain_descriptors (param (loaded ?defs []))"
    by (simp add: plain_descriptors_def loaded_def py_eq_def)
  have b: "populate_default_parameters (Suc (Suc 0)) (loaded ?defs [])
             = (Inr (), loaded ?defs [(''C'', PInt 2), (''B'', PStr ''x'')])"
    by (simp add: populate_default_parameters_def update_dependent_defaults_def
        check_dependencies_def dep_list_def List.map_filter_simps loaded_def does_exist_def
        py_eq_def)
  from populate_idempotent[of "Suc (Suc 3)" "loaded ?defs []" 3] a
  have "populate_default_parameters (Suc (Suc 3)) (loaded ?defs [])
          = populate_default_parameters (Suc (Suc 0)) (loaded ?defs [])" by blast
  with b have c: "populate_default_parameters (Suc (Suc 3)) (loaded ?defs [])
             = (Inr (), loaded ?defs [(''C'', PInt 2), (''B'', PStr ''x'')])"
    by (simp only:)
  have a': "plain_descriptors (param (loaded ?defs [(''C'', PInt 2), (''B'', PStr ''x'')]))"
    by (simp add: plain_descriptors_def loaded_def py_eq_def)
  have b': "populate_default_parameters (Suc (Suc 0))
             (loaded ?defs [(''C'', PInt 2), (''B'', PStr ''x'')])
           = (Inr (), loaded ?defs [(''C'', PInt 2), (''B'', PStr ''x'')])"
    by (simp add: populate_default_parameters_def update_dependent_defaults_def
        check_dependencies_def dep_list_def List.map_filter_simps loaded_def does_exist_def
        py_eq_def)
  from populate_idempotent[of "Suc (Suc 3)" "loaded ?defs [(''C'', PInt 2), (''B'', PStr ''x'')]" 3] a'
  have "populate_default_parameters (Suc (Suc 3)) (loaded ?defs [(''C'', PInt 2), (''B'', PStr ''x'')])
          = populate_default_parameters (Suc (Suc 0))
              (loaded ?defs [(''C'', PInt 2), (''B'', PStr ''x'')])" by blast
  with b' have f: "populate_default_parameters (Suc (Suc 3))
             (loaded ?defs [(''C'', PInt 2), (''B'', PStr ''x'')])
           = (Inr (), loaded ?defs [(''C'', PInt 2), (''B'', PStr ''x'')])"
    by (simp only:)
  from a c f show ?thesis by blast
qed

subsection \<open>What the operations leave alone\<close>











end
